theory Spec2Isabelle
  imports Complex_Main "HOL-Library.Sublist" "HOL-Library.Log_Nat"
begin

section \<open>Data model (packages/db/src/schema/todos.ts)\<close>

text \<open>
  The three tables of the schema. A timestamp is the number of milliseconds it
  denotes; a nullable column is an \<open>option\<close>. Column \<open>todos.userId\<close> is the field
  \<open>todos_userId\<close>, and so on for every column.
\<close>

type_synonym timestamp = int

datatype priority = Low | Medium | High | Urgent

record todo =
  todos_id :: string
  todos_title :: string
  todos_description :: "string option"
  todos_completed :: bool
  todos_priority :: priority
  todos_dueDate :: "timestamp option"
  todos_userId :: string
  todos_createdAt :: timestamp
  todos_updatedAt :: timestamp

record tag =
  tags_id :: string
  tags_name :: string
  tags_color :: string
  tags_userId :: string
  tags_createdAt :: timestamp

record todoTag =
  todoTags_todoId :: string
  todoTags_tagId :: string
  todoTags_createdAt :: timestamp

text \<open>The store: the rows of each table, in the order the store holds them.\<close>

record db =
  todos :: "todo list"
  tags :: "tag list"
  todoTags :: "todoTag list"

text \<open>
  The constraints the schema declares: \<open>id\<close> is the primary key of \<open>todos\<close> and of
  \<open>tags\<close>, and both columns of \<open>todo_tags\<close> reference an existing row.
\<close>

definition wf_db :: "db \<Rightarrow> bool" where
  "wf_db d \<longleftrightarrow>
     distinct (map todos_id (todos d)) \<and>
     distinct (map tags_id (tags d)) \<and>
     list_all (\<lambda>tt. todoTags_todoId tt \<in> set (map todos_id (todos d)) \<and>
                     todoTags_tagId tt \<in> set (map tags_id (tags d))) (todoTags d)"

datatype error = NOT_FOUND | INTERNAL_SERVER_ERROR | FOREIGN_KEY_VIOLATION

section \<open>The store's LIKE operator\<close>

text \<open>
  \<open>like(column, pattern)\<close> is the store's \<open>LIKE\<close>: in the pattern \<open>%\<close> matches any
  run of characters, \<open>_\<close> matches any one character, and a backslash makes the
  character after it literal. A pattern that ends in a lone backslash is rejected by
  the store; it is the \<open>False\<close> of the third branch, and no pattern of the form
  \<open>%s%\<close> reaches it. The first argument is the pattern.
\<close>

fun like_match :: "string \<Rightarrow> string \<Rightarrow> bool" where
  "like_match [] [] = True"
| "like_match [] (c # t) = False"
| "like_match (p # ps) [] = (p = CHR ''%'' \<and> like_match ps [])"
| "like_match (p # ps) (c # t) =
     (if p = CHR ''%'' then like_match ps (c # t) \<or> like_match (p # ps) t
      else if p = CHR ''_'' then like_match ps t
      else if p = CHR 0x5C then
        (case ps of [] \<Rightarrow> False | q # qs \<Rightarrow> q = c \<and> like_match qs t)
      else p = c \<and> like_match ps t)"

text \<open>\<open>like\<close> on a nullable column: NULL never satisfies a WHERE clause.\<close>

definition like :: "string option \<Rightarrow> string \<Rightarrow> bool" where
  "like col pat = (case col of None \<Rightarrow> False | Some s \<Rightarrow> like_match pat s)"

section \<open>getTodos\<close>

datatype sortBy = CreatedAt | DueDate | Priority | Title
datatype sortOrder = Asc | Desc

record getTodosInput =
  q_completed :: "bool option"
  q_priority :: "priority option"
  q_search :: "string option"
  q_tagId :: "string option"
  q_sortBy :: sortBy
  q_sortOrder :: sortOrder

text \<open>
  The \<open>conditions\<close> array. \<open>input.completed !== undefined\<close> tests presence;
  \<open>if (input.search)\<close> and \<open>if (input.tagId)\<close> test truthiness, so the empty string
  counts as absent. The tag subquery selects \<open>todoId\<close> from \<open>todo_tags\<close> where
  \<open>tagId\<close> is the requested one.
\<close>

definition tag_subquery :: "db \<Rightarrow> string \<Rightarrow> string list" where
  "tag_subquery d tg = map todoTags_todoId (filter (\<lambda>tt. todoTags_tagId tt = tg) (todoTags d))"

definition getTodos_conditions :: "db \<Rightarrow> string \<Rightarrow> getTodosInput \<Rightarrow> (todo \<Rightarrow> bool) list" where
  "getTodos_conditions d userId input =
     [\<lambda>t. todos_userId t = userId]
     @ (case q_completed input of None \<Rightarrow> []
        | Some c \<Rightarrow> [\<lambda>t. todos_completed t = c])
     @ (case q_priority input of None \<Rightarrow> []
        | Some p \<Rightarrow> [\<lambda>t. todos_priority t = p])
     @ (case q_search input of None \<Rightarrow> []
        | Some s \<Rightarrow> if s = [] then []
            else [\<lambda>t. like (Some (todos_title t)) (CHR ''%'' # s @ ''%'')
                     \<or> like (todos_description t) (CHR ''%'' # s @ ''%'')])
     @ (case q_tagId input of None \<Rightarrow> []
        | Some tg \<Rightarrow> if tg = [] then []
            else [\<lambda>t. todos_id t \<in> set (tag_subquery d tg)])"

text \<open>\<open>and(...conditions)\<close>: a row passes when it passes every condition.\<close>

definition and_conditions :: "(todo \<Rightarrow> bool) list \<Rightarrow> todo \<Rightarrow> bool" where
  "and_conditions cs t = list_all (\<lambda>c. c t) cs"

text \<open>
  ORDER BY. The store compares \<open>priority\<close> by the enum's declaration order and puts
  NULL after every value in ascending order (so first in descending order);
  titles are compared character by character, by character code. Rows with equal
  keys come out in an order the store chooses; here they keep the order of the
  table (a stable insertion sort).
\<close>

fun priority_rank :: "priority \<Rightarrow> nat" where
  "priority_rank Low = 0"
| "priority_rank Medium = 1"
| "priority_rank High = 2"
| "priority_rank Urgent = 3"

fun lex_le :: "nat list \<Rightarrow> nat list \<Rightarrow> bool" where
  "lex_le [] ys = True"
| "lex_le (x # xs) [] = False"
| "lex_le (x # xs) (y # ys) = (x < y \<or> (x = y \<and> lex_le xs ys))"

fun nulls_last_le :: "timestamp option \<Rightarrow> timestamp option \<Rightarrow> bool" where
  "nulls_last_le _ None = True"
| "nulls_last_le None (Some _) = False"
| "nulls_last_le (Some a) (Some b) = (a \<le> b)"

fun column_le :: "sortBy \<Rightarrow> todo \<Rightarrow> todo \<Rightarrow> bool" where
  "column_le CreatedAt a b = (todos_createdAt a \<le> todos_createdAt b)"
| "column_le DueDate a b = nulls_last_le (todos_dueDate a) (todos_dueDate b)"
| "column_le Priority a b = (priority_rank (todos_priority a) \<le> priority_rank (todos_priority b))"
| "column_le Title a b = lex_le (map of_char (todos_title a)) (map of_char (todos_title b))"

fun order_le :: "sortBy \<Rightarrow> sortOrder \<Rightarrow> todo \<Rightarrow> todo \<Rightarrow> bool" where
  "order_le col Asc a b = column_le col a b"
| "order_le col Desc a b = column_le col b a"

fun insert_by :: "('a \<Rightarrow> 'a \<Rightarrow> bool) \<Rightarrow> 'a \<Rightarrow> 'a list \<Rightarrow> 'a list" where
  "insert_by le x [] = [x]"
| "insert_by le x (y # ys) = (if le x y then x # y # ys else y # insert_by le x ys)"

definition order_by :: "('a \<Rightarrow> 'a \<Rightarrow> bool) \<Rightarrow> 'a list \<Rightarrow> 'a list" where
  "order_by le xs = foldr (insert_by le) xs []"

text \<open>
  \<open>with: { todoTags: { with: { tag: true } } }\<close> attaches to a row its \<open>todo_tags\<close>
  rows, each with the tag it references (\<open>null\<close> when there is none); the handler
  then adds \<open>tags: todo.todoTags.map((tt) => tt.tag)\<close>.
\<close>

record todoWithTags =
  r_todo :: todo
  r_todoTags :: "(todoTag \<times> tag option) list"
  r_tags :: "tag option list"

definition with_todoTags :: "db \<Rightarrow> todo \<Rightarrow> (todoTag \<times> tag option) list" where
  "with_todoTags d t =
     map (\<lambda>tt. (tt, find (\<lambda>g. tags_id g = todoTags_tagId tt) (tags d)))
         (filter (\<lambda>tt. todoTags_todoId tt = todos_id t) (todoTags d))"

definition enrich :: "db \<Rightarrow> todo \<Rightarrow> todoWithTags" where
  "enrich d t = \<lparr> r_todo = t, r_todoTags = with_todoTags d t,
                  r_tags = map snd (with_todoTags d t) \<rparr>"

definition findMany :: "db \<Rightarrow> (todo \<Rightarrow> bool) \<Rightarrow> todo list" where
  "findMany d wh = filter wh (todos d)"

definition getTodos :: "db \<Rightarrow> string \<Rightarrow> getTodosInput \<Rightarrow> todoWithTags list" where
  "getTodos d userId input =
     (let conditions = getTodos_conditions d userId input;
          userTodos = order_by (order_le (q_sortBy input) (q_sortOrder input))
                        (findMany d (and_conditions conditions))
      in map (enrich d) userTodos)"

text \<open>
  The predicate as the specification words it: the owner is the caller, and each
  filter that is present holds, where the search filter is "title contains search
  or description contains search" and the tag filter is "the task's id is among
  the task ids associated with the tag".
\<close>

definition spec_getTodos_predicate :: "db \<Rightarrow> string \<Rightarrow> getTodosInput \<Rightarrow> todo \<Rightarrow> bool" where
  "spec_getTodos_predicate d userId input t \<longleftrightarrow>
     todos_userId t = userId \<and>
     (case q_completed input of None \<Rightarrow> True | Some c \<Rightarrow> todos_completed t = c) \<and>
     (case q_priority input of None \<Rightarrow> True | Some p \<Rightarrow> todos_priority t = p) \<and>
     (case q_search input of None \<Rightarrow> True
      | Some s \<Rightarrow> sublist s (todos_title t) \<or>
                  (case todos_description t of None \<Rightarrow> False | Some ds \<Rightarrow> sublist s ds)) \<and>
     (case q_tagId input of None \<Rightarrow> True
      | Some tg \<Rightarrow> todos_id t \<in>
          set (map todoTags_todoId (filter (\<lambda>tt. todoTags_tagId tt = tg) (todoTags d))))"

text \<open>A search string with none of the characters \<open>LIKE\<close> reads as a pattern.\<close>

definition like_literal :: "string \<Rightarrow> bool" where
  "like_literal s = list_all (\<lambda>c. c \<noteq> CHR ''%'' \<and> c \<noteq> CHR ''_'' \<and> c \<noteq> CHR 0x5C) s"

section \<open>getTodo\<close>

definition first_row :: "'a list \<Rightarrow> 'a option" where
  "first_row rows = (case rows of [] \<Rightarrow> None | r # _ \<Rightarrow> Some r)"

definition getTodo :: "db \<Rightarrow> string \<Rightarrow> string \<Rightarrow> error + todoWithTags" where
  "getTodo d userId tid =
     (case first_row (findMany d (\<lambda>t. todos_id t = tid \<and> todos_userId t = userId)) of
        None \<Rightarrow> Inl NOT_FOUND
      | Some t \<Rightarrow> Inr (enrich d t))"

section \<open>updateTodo\<close>

text \<open>
  The parsed input. A field that was not supplied is \<open>None\<close>; \<open>description\<close> and
  \<open>dueDate\<close> may also be supplied as \<open>null\<close>, which is \<open>Some None\<close>. A supplied
  \<open>dueDate\<close> is the timestamp its ISO string denotes.
\<close>

record updateTodoInput =
  u_id :: string
  u_title :: "string option"
  u_description :: "string option option"
  u_completed :: "bool option"
  u_priority :: "priority option"
  u_dueDate :: "timestamp option option"
  u_tagIds :: "string list option"

text \<open>\<open>Object.keys(updateData).length > 0\<close>, where \<open>updateData\<close> is the input without
  \<open>id\<close> and \<open>tagIds\<close>.\<close>

definition has_updateData :: "updateTodoInput \<Rightarrow> bool" where
  "has_updateData input \<longleftrightarrow>
     u_title input \<noteq> None \<or> u_description input \<noteq> None \<or> u_completed input \<noteq> None \<or>
     u_priority input \<noteq> None \<or> u_dueDate input \<noteq> None"

text \<open>The \<open>set\<close> of the update: supplied columns, and \<open>updatedAt: new Date()\<close>.\<close>

definition set_updateData :: "updateTodoInput \<Rightarrow> timestamp \<Rightarrow> todo \<Rightarrow> todo" where
  "set_updateData input now t =
     t\<lparr> todos_title := (case u_title input of None \<Rightarrow> todos_title t | Some v \<Rightarrow> v),
        todos_description := (case u_description input of None \<Rightarrow> todos_description t | Some v \<Rightarrow> v),
        todos_completed := (case u_completed input of None \<Rightarrow> todos_completed t | Some v \<Rightarrow> v),
        todos_priority := (case u_priority input of None \<Rightarrow> todos_priority t | Some v \<Rightarrow> v),
        todos_dueDate := (case u_dueDate input of None \<Rightarrow> todos_dueDate t | Some v \<Rightarrow> v),
        todos_updatedAt := now \<rparr>"

definition update_todos :: "db \<Rightarrow> (todo \<Rightarrow> bool) \<Rightarrow> (todo \<Rightarrow> todo) \<Rightarrow> db" where
  "update_todos d wh st = d\<lparr> todos := map (\<lambda>t. if wh t then st t else t) (todos d) \<rparr>"

definition delete_todoTags :: "db \<Rightarrow> (todoTag \<Rightarrow> bool) \<Rightarrow> db" where
  "delete_todoTags d wh = d\<lparr> todoTags := filter (\<lambda>tt. \<not> wh tt) (todoTags d) \<rparr>"

text \<open>An insert into \<open>todo_tags\<close> fails when a row references no todo or no tag.\<close>

definition insert_todoTags :: "db \<Rightarrow> todoTag list \<Rightarrow> error + db" where
  "insert_todoTags d rows =
     (if list_all (\<lambda>tt. todoTags_todoId tt \<in> set (map todos_id (todos d)) \<and>
                         todoTags_tagId tt \<in> set (map tags_id (tags d))) rows
      then Inr (d\<lparr> todoTags := todoTags d @ rows \<rparr>)
      else Inl FOREIGN_KEY_VIOLATION)"

text \<open>
  The handler runs in one transaction: when it throws, the store is the one it
  started from. The result is the outcome and the store afterwards.
\<close>

definition updateTodo_tags :: "db \<Rightarrow> string \<Rightarrow> string list option \<Rightarrow> timestamp \<Rightarrow> error + db" where
  "updateTodo_tags d tid tagIds now =
     (case tagIds of
        None \<Rightarrow> Inr d
      | Some ids \<Rightarrow>
          (let d' = delete_todoTags d (\<lambda>tt. todoTags_todoId tt = tid)
           in if ids \<noteq> []
              then insert_todoTags d'
                     (map (\<lambda>tg. \<lparr> todoTags_todoId = tid, todoTags_tagId = tg,
                                  todoTags_createdAt = now \<rparr>) ids)
              else Inr d'))"

text \<open>\<open>if (Object.keys(updateData).length > 0)\<close>: the update of the row, under \<open>id\<close> alone.\<close>

definition updateTodo_fields :: "db \<Rightarrow> updateTodoInput \<Rightarrow> timestamp \<Rightarrow> db" where
  "updateTodo_fields d input now =
     (if has_updateData input
      then update_todos d (\<lambda>t. todos_id t = u_id input) (set_updateData input now)
      else d)"

definition updateTodo :: "db \<Rightarrow> string \<Rightarrow> updateTodoInput \<Rightarrow> timestamp \<Rightarrow> (error + todoWithTags) \<times> db" where
  "updateTodo d userId input now =
     (case first_row (filter (\<lambda>t. todos_id t = u_id input \<and> todos_userId t = userId) (todos d)) of
        None \<Rightarrow> (Inl NOT_FOUND, d)
      | Some existing \<Rightarrow>
          (case updateTodo_tags (updateTodo_fields d input now) (u_id input) (u_tagIds input) now of
             Inl e \<Rightarrow> (Inl e, d)
           | Inr d2 \<Rightarrow>
               (case first_row (findMany d2 (\<lambda>t. todos_id t = u_id input)) of
                  None \<Rightarrow> (Inl INTERNAL_SERVER_ERROR, d)
                | Some updatedTodo \<Rightarrow> (Inr (enrich d2 updatedTodo), d2))))"

section \<open>toggleTodo\<close>

text \<open>
  Two statements, outside any transaction: a select of \<open>completed\<close> under
  \<open>id\<close> and \<open>userId\<close>, then an update under \<open>id\<close> alone that writes the negation of
  what was read and returns the rows it changed.
\<close>

definition toggleTodo_select :: "db \<Rightarrow> string \<Rightarrow> string \<Rightarrow> bool option" where
  "toggleTodo_select d userId tid =
     map_option todos_completed
       (first_row (filter (\<lambda>t. todos_id t = tid \<and> todos_userId t = userId) (todos d)))"

definition toggleTodo_update :: "db \<Rightarrow> string \<Rightarrow> bool \<Rightarrow> timestamp \<Rightarrow> todo list \<times> db" where
  "toggleTodo_update d tid c now =
     (let d' = update_todos d (\<lambda>t. todos_id t = tid)
                 (\<lambda>t. t\<lparr> todos_completed := c, todos_updatedAt := now \<rparr>)
      in (filter (\<lambda>t. todos_id t = tid) (todos d'), d'))"

definition toggleTodo :: "db \<Rightarrow> string \<Rightarrow> string \<Rightarrow> timestamp \<Rightarrow> (error + todo option) \<times> db" where
  "toggleTodo d userId tid now =
     (case toggleTodo_select d userId tid of
        None \<Rightarrow> (Inl NOT_FOUND, d)
      | Some existing_completed \<Rightarrow>
          (let (returning, d') = toggleTodo_update d tid (\<not> existing_completed) now
           in (Inr (first_row returning), d')))"

text \<open>
  The two statements are two round trips to the store, and other requests run
  between them: here the select reads the store \<open>d0\<close> and the update writes the
  store \<open>d\<close>. \<open>toggleTodo\<close> is the case where nothing ran in between.
\<close>

definition toggleTodo_interleaved ::
    "db \<Rightarrow> db \<Rightarrow> string \<Rightarrow> string \<Rightarrow> timestamp \<Rightarrow> (error + todo option) \<times> db" where
  "toggleTodo_interleaved d0 d userId tid now =
     (case toggleTodo_select d0 userId tid of
        None \<Rightarrow> (Inl NOT_FOUND, d)
      | Some existing_completed \<Rightarrow>
          (let (returning, d') = toggleTodo_update d tid (\<not> existing_completed) now
           in (Inr (first_row returning), d')))"

section \<open>deleteTodo\<close>

text \<open>
  One delete under \<open>id\<close> and \<open>userId\<close>, returning the deleted rows; \<open>todo_tags\<close>
  rows of a deleted todo go with it (\<open>onDelete: "cascade"\<close>).
\<close>

definition delete_todos :: "db \<Rightarrow> (todo \<Rightarrow> bool) \<Rightarrow> todo list \<times> db" where
  "delete_todos d wh =
     (let deleted = filter wh (todos d)
      in (deleted,
          d\<lparr> todos := filter (\<lambda>t. \<not> wh t) (todos d),
             todoTags := filter (\<lambda>tt. todoTags_todoId tt \<notin> set (map todos_id deleted)) (todoTags d) \<rparr>))"

text \<open>The object a handler returns: its keys and their values, in order.\<close>

datatype jsvalue = JBool bool | JString string

type_synonym jsobject = "(string \<times> jsvalue) list"

text \<open>The router with \<open>toggleTodo\<close> and \<open>getStats\<close> returns \<open>{ success: true, id: deletedTodo.id }\<close>.\<close>

definition deleteTodo :: "db \<Rightarrow> string \<Rightarrow> string \<Rightarrow> (error + jsobject) \<times> db" where
  "deleteTodo d userId tid =
     (let (returning, d') = delete_todos d (\<lambda>t. todos_id t = tid \<and> todos_userId t = userId)
      in case first_row returning of
           None \<Rightarrow> (Inl NOT_FOUND, d')
         | Some deletedTodo \<Rightarrow>
             (Inr [(''success'', JBool True), (''id'', JString (todos_id deletedTodo))], d'))"

text \<open>The router in \<open>packages/api/src/routers/todos.ts\<close> returns \<open>{ success: true }\<close>.\<close>

definition deleteTodo_routers :: "db \<Rightarrow> string \<Rightarrow> string \<Rightarrow> (error + jsobject) \<times> db" where
  "deleteTodo_routers d userId tid =
     (let (returning, d') = delete_todos d (\<lambda>t. todos_id t = tid \<and> todos_userId t = userId)
      in case first_row returning of
           None \<Rightarrow> (Inl NOT_FOUND, d')
         | Some deletedTodo \<Rightarrow> (Inr [(''success'', JBool True)], d'))"

section \<open>getStats\<close>

text \<open>
  JavaScript numbers are IEEE 754 doubles. A finite double is a rational number, and
  \<open>/\<close> and \<open>*\<close> return the exact result rounded to the nearest double, ties to the
  even significand. \<open>fl\<close> is that rounding for the doubles with full 53-bit
  significands (magnitudes from \<open>2\<^sup>-\<^sup>1\<^sup>0\<^sup>2\<^sup>2\<close> up to the largest double), which holds every
  number \<open>getStats\<close> computes: \<open>binade x\<close> is the exponent \<open>e\<close> with
  \<open>2\<^sup>e \<le> x < 2\<^sup>e\<^sup>+\<^sup>1\<close>, and the doubles there are the multiples of \<open>2\<^sup>e\<^sup>-\<^sup>5\<^sup>2\<close>.
\<close>

definition pow2 :: "int \<Rightarrow> rat" where
  "pow2 e = (if 0 \<le> e then 2 ^ nat e else 1 / 2 ^ nat (- e))"

definition binade :: "rat \<Rightarrow> int" where
  "binade x =
     (let (a, b) = quotient_of x; e = bitlen a - bitlen b
      in if pow2 e \<le> x then e else e - 1)"

definition round_to_even :: "rat \<Rightarrow> int" where
  "round_to_even x =
     (let f = \<lfloor>x\<rfloor>; r = x - of_int f
      in if r < 1 / 2 then f else if 1 / 2 < r then f + 1 else if even f then f else f + 1)"

definition fl :: "rat \<Rightarrow> rat" where
  "fl x =
     (if x = 0 then 0
      else let ulp = pow2 (binade \<bar>x\<bar> - 52) in of_int (round_to_even (x / ulp)) * ulp)"

definition js_div :: "rat \<Rightarrow> rat \<Rightarrow> rat" where
  "js_div a b = fl (a / b)"

definition js_mul :: "rat \<Rightarrow> rat \<Rightarrow> rat" where
  "js_mul a b = fl (a * b)"

text \<open>\<open>Math.round\<close>: the nearest integer, the larger one of two equally near.\<close>

definition Math_round :: "rat \<Rightarrow> int" where
  "Math_round x = \<lfloor>x + 1 / 2\<rfloor>"

record byPriority =
  st_low :: int
  st_medium :: int
  st_high :: int
  st_urgent :: int

record stats =
  st_total :: int
  st_completed :: int
  st_pending :: int
  st_overdue :: int
  st_dueToday :: int
  st_completionRate :: int
  st_byPriority :: byPriority

text \<open>\<open>xs.filter(p).length\<close> and \<open>xs.length\<close>.\<close>

definition count :: "('a \<Rightarrow> bool) \<Rightarrow> 'a list \<Rightarrow> int" where
  "count p xs = int (length (filter p xs))"

text \<open>
  \<open>completionRate\<close> from the two counts:
  \<open>total > 0 ? Math.round((completed / total) * 100) : 0\<close>.
\<close>

definition completionRate :: "int \<Rightarrow> int \<Rightarrow> int" where
  "completionRate completed n_total =
     (if n_total > 0 then Math_round (js_mul (js_div (of_int completed) (of_int n_total)) 100) else 0)"


text \<open>
  \<open>toDateString\<close> gives the calendar day of a timestamp in the server's time zone;
  it is a parameter, as is the clock \<open>now\<close>.
\<close>

definition getStats :: "(timestamp \<Rightarrow> string) \<Rightarrow> db \<Rightarrow> string \<Rightarrow> timestamp \<Rightarrow> stats" where
  "getStats toDateString d userId now =
     (let allTodos = filter (\<lambda>t. todos_userId t = userId) (todos d);
          n_total = int (length allTodos);
          completed = count todos_completed allTodos;
          pending = n_total - completed;
          overdue = count (\<lambda>t. \<not> todos_completed t \<and>
                      (case todos_dueDate t of None \<Rightarrow> False | Some due \<Rightarrow> due < now)) allTodos;
          dueToday = count (\<lambda>t.
                      (case todos_dueDate t of None \<Rightarrow> False
                       | Some due \<Rightarrow> if todos_completed t then False
                                     else toDateString due = toDateString now)) allTodos;
          byPriority = \<lparr> st_low = count (\<lambda>t. todos_priority t = Low) allTodos,
                         st_medium = count (\<lambda>t. todos_priority t = Medium) allTodos,
                         st_high = count (\<lambda>t. todos_priority t = High) allTodos,
                         st_urgent = count (\<lambda>t. todos_priority t = Urgent) allTodos \<rparr>
      in \<lparr> st_total = n_total, st_completed = completed, st_pending = pending,
           st_overdue = overdue, st_dueToday = dueToday,
           st_completionRate = completionRate completed n_total,
           st_byPriority = byPriority \<rparr>)"

section \<open>A store with two users\<close>

text \<open>
  Alice owns \<open>t1\<close> and the tag \<open>g2\<close>; Bob owns \<open>t2\<close> and the tag \<open>g1\<close>, which is
  attached to both todos.
\<close>

definition ex_t1 :: todo where
  "ex_t1 = \<lparr> todos_id = ''t1'', todos_title = ''Buy milk'', todos_description = None,
             todos_completed = False, todos_priority = High, todos_dueDate = None,
             todos_userId = ''alice'', todos_createdAt = 10, todos_updatedAt = 10 \<rparr>"

definition ex_t2 :: todo where
  "ex_t2 = \<lparr> todos_id = ''t2'', todos_title = ''proj plan'', todos_description = Some ''for bob'',
             todos_completed = True, todos_priority = Low, todos_dueDate = Some 50,
             todos_userId = ''bob'', todos_createdAt = 20, todos_updatedAt = 20 \<rparr>"

definition ex_g1 :: tag where
  "ex_g1 = \<lparr> tags_id = ''g1'', tags_name = ''work'', tags_color = ''#3B82F6'',
             tags_userId = ''bob'', tags_createdAt = 5 \<rparr>"

definition ex_g2 :: tag where
  "ex_g2 = \<lparr> tags_id = ''g2'', tags_name = ''home'', tags_color = ''#3B82F6'',
             tags_userId = ''alice'', tags_createdAt = 6 \<rparr>"

definition ex_db :: db where
  "ex_db = \<lparr> todos = [ex_t1, ex_t2], tags = [ex_g1, ex_g2],
             todoTags = [\<lparr> todoTags_todoId = ''t1'', todoTags_tagId = ''g1'', todoTags_createdAt = 11 \<rparr>,
                         \<lparr> todoTags_todoId = ''t2'', todoTags_tagId = ''g1'', todoTags_createdAt = 21 \<rparr>,
                         \<lparr> todoTags_todoId = ''t1'', todoTags_tagId = ''g2'', todoTags_createdAt = 12 \<rparr>] \<rparr>"

definition ex_query :: getTodosInput where
  "ex_query = \<lparr> q_completed = None, q_priority = None, q_search = None, q_tagId = Some ''g1'',
                q_sortBy = CreatedAt, q_sortOrder = Desc \<rparr>"

text \<open>Alice replaces the tags of \<open>t1\<close> by \<open>g2\<close> and changes no field.\<close>

definition ex_retag :: updateTodoInput where
  "ex_retag = \<lparr> u_id = ''t1'', u_title = None, u_description = None, u_completed = None,
                u_priority = None, u_dueDate = None, u_tagIds = Some [''g2''] \<rparr>"

text \<open>Alice attaches to \<open>t1\<close> a tag that does not exist; Alice renames \<open>t1\<close> and clears its tags.\<close>

definition ex_ghost :: updateTodoInput where
  "ex_ghost = \<lparr> u_id = ''t1'', u_title = None, u_description = None, u_completed = None,
                u_priority = None, u_dueDate = None, u_tagIds = Some [''ghost''] \<rparr>"

definition ex_clear :: updateTodoInput where
  "ex_clear = \<lparr> u_id = ''t1'', u_title = Some ''Buy oat milk'', u_description = None,
                u_completed = None, u_priority = None, u_dueDate = None, u_tagIds = Some [] \<rparr>"

text \<open>
  Queries of Alice: a search with the pattern character \<open>_\<close>, the empty string as
  \<open>tagId\<close>, each of the two again with a filter on \<open>completed\<close>, and all four
  filters at once.
\<close>

definition ex_wildcard :: getTodosInput where
  "ex_wildcard = \<lparr> q_completed = None, q_priority = None, q_search = Some ''B_y'', q_tagId = None,
                q_sortBy = CreatedAt, q_sortOrder = Desc \<rparr>"

definition ex_emptyTag :: getTodosInput where
  "ex_emptyTag = \<lparr> q_completed = None, q_priority = None, q_search = None, q_tagId = Some '''',
                q_sortBy = CreatedAt, q_sortOrder = Desc \<rparr>"

definition ex_emptyTag_low :: getTodosInput where
  "ex_emptyTag_low = \<lparr> q_completed = Some True, q_priority = Some Low, q_search = None,
                       q_tagId = Some '''', q_sortBy = CreatedAt, q_sortOrder = Desc \<rparr>"

definition ex_wildcard_done :: getTodosInput where
  "ex_wildcard_done = \<lparr> q_completed = Some True, q_priority = None, q_search = Some ''B_y'',
                        q_tagId = None, q_sortBy = CreatedAt, q_sortOrder = Desc \<rparr>"

definition ex_filters :: getTodosInput where
  "ex_filters = \<lparr> q_completed = Some False, q_priority = Some High, q_search = Some ''milk'',
                  q_tagId = Some ''g1'', q_sortBy = Title, q_sortOrder = Asc \<rparr>"

text \<open>Forty tasks of Alice, the first twenty-three of them completed.\<close>

definition ex_many :: db where
  "ex_many = \<lparr> todos = map (\<lambda>n. ex_t1\<lparr> todos_id := replicate (Suc n) CHR ''t'',
                                          todos_completed := n < 23 \<rparr>) [0..<40],
               tags = [], todoTags = [] \<rparr>"

section \<open>The example stores satisfy the schema\<close>

lemma ex_db_wf: "wf_db ex_db"
  by (simp add: wf_db_def ex_db_def ex_t1_def ex_t2_def ex_g1_def ex_g2_def)

lemma ex_many_wf: "wf_db ex_many"
  by code_simp

section \<open>Ownership of the rows getTodos returns\<close>

lemma set_insert_by: "set (insert_by le x xs) = insert x (set xs)"
  by (induction xs) auto

lemma set_order_by: "set (order_by le xs) = set xs"
  by (induction xs) (simp_all add: order_by_def set_insert_by)

lemma set_getTodos:
  "set (getTodos d userId input) =
     enrich d ` {t \<in> set (todos d). and_conditions (getTodos_conditions d userId input) t}"
  by (simp add: getTodos_def findMany_def set_order_by)

lemma r_todo_enrich: "r_todo (enrich d t) = t"
  by (simp add: enrich_def)

lemma conditions_owner:
  "and_conditions (getTodos_conditions d userId input) t \<Longrightarrow> todos_userId t = userId"
  by (simp add: and_conditions_def getTodos_conditions_def)

text \<open>
  Claim C1. Whatever the filters and the sort, every task \<open>getTodos\<close> returns is
  owned by the caller. Nothing is assumed of \<open>tagId\<close>: it may name another user's
  tag.
\<close>

theorem getTodos_owner_only:
  "\<forall>r \<in> set (getTodos d userId input). todos_userId (r_todo r) = userId"
  by (auto simp: set_getTodos r_todo_enrich dest: conditions_owner)

text \<open>Alice filters by Bob's tag \<open>g1\<close>, which is on both todos: she gets \<open>t1\<close> alone.\<close>

theorem getTodos_owner_only_witness:
  "map (todos_id \<circ> r_todo) (getTodos ex_db ''alice'' ex_query) = [''t1''] \<and>
   list_all (\<lambda>r. todos_userId (r_todo r) = ''alice'') (getTodos ex_db ''alice'' ex_query)"
proof -
  have "map (todos_id \<circ> r_todo) (getTodos ex_db ''alice'' ex_query) = [''t1'']"
    by code_simp
  then show ?thesis
    using getTodos_owner_only [of ex_db "''alice''" ex_query] by (simp add: list_all_iff)
qed

section \<open>The predicate of getTodos\<close>

text \<open>A pattern \<open>%s%\<close> whose \<open>s\<close> has no pattern character matches the texts that contain \<open>s\<close>.\<close>

lemma like_match_percent: "like_match ''%'' t"
  by (induction t) simp_all

lemma like_match_literal_prefix:
  "like_literal s \<Longrightarrow> like_match (s @ ''%'') t = prefix s t"
proof (induction s arbitrary: t)
  case Nil
  then show ?case by (simp add: like_match_percent)
next
  case (Cons a s)
  then have a: "a \<noteq> CHR ''%''" "a \<noteq> CHR ''_''" "a \<noteq> CHR 0x5C" and s: "like_literal s"
    by (simp_all add: like_literal_def)
  show ?case
  proof (cases t)
    case Nil
    with a show ?thesis by simp
  next
    case (Cons c t')
    with a Cons.IH [OF s, of t'] show ?thesis by auto
  qed
qed

lemma like_match_contains:
  "like_literal s \<Longrightarrow> like_match (CHR ''%'' # s @ ''%'') t = sublist s t"
proof (induction t)
  case Nil
  then show ?case
    using like_match_literal_prefix [of s "[]"] by simp
next
  case (Cons c t)
  then show ?case
    using like_match_literal_prefix [of s "c # t"] by (simp add: sublist_Cons_right)
qed

lemma like_contains:
  "like_literal s \<Longrightarrow>
     like col (CHR ''%'' # s @ ''%'') = (case col of None \<Rightarrow> False | Some x \<Rightarrow> sublist s x)"
  by (simp add: like_def like_match_contains split: option.splits)

lemma like_literal_nonempty: "\<not> like_literal s \<Longrightarrow> s \<noteq> []"
  by (auto simp: like_literal_def)

text \<open>
  Claim C2, as the code has it. For every input, the predicate \<open>getTodos\<close>
  applies is the conjunction of: the owner is the caller; \<open>completed\<close> and
  \<open>priority\<close> are the requested ones, when present; the search condition, when
  \<open>search\<close> is present; and the task's id is among the task ids associated with
  \<open>tagId\<close>, when \<open>tagId\<close> is present and not the empty string. The search
  condition is "title contains search, or description is not null and contains
  search" when the search string has none of the characters \<open>%\<close>, \<open>_\<close> and
  backslash (the empty string constrains nothing), and otherwise the store's
  \<open>LIKE\<close> match of \<open>%search%\<close> on either column. The tasks returned are the tasks
  of the store that satisfy the predicate. When the search string has no pattern
  character and \<open>tagId\<close> is not the empty string, the predicate is the one of the
  specification.
\<close>

theorem getTodos_predicate:
  "and_conditions (getTodos_conditions d userId input) t =
     (todos_userId t = userId \<and>
      (case q_completed input of None \<Rightarrow> True | Some c \<Rightarrow> todos_completed t = c) \<and>
      (case q_priority input of None \<Rightarrow> True | Some p \<Rightarrow> todos_priority t = p) \<and>
      (case q_search input of None \<Rightarrow> True
       | Some s \<Rightarrow>
           if like_literal s
           then sublist s (todos_title t) \<or>
                (case todos_description t of None \<Rightarrow> False | Some ds \<Rightarrow> sublist s ds)
           else like (Some (todos_title t)) (CHR ''%'' # s @ ''%'') \<or>
                like (todos_description t) (CHR ''%'' # s @ ''%'')) \<and>
      (case q_tagId input of None \<Rightarrow> True
       | Some tg \<Rightarrow> tg = [] \<or>
           todos_id t \<in> set (map todoTags_todoId
                                (filter (\<lambda>tt. todoTags_tagId tt = tg) (todoTags d))))) \<and>
   set (map r_todo (getTodos d userId input))
     = {t \<in> set (todos d). and_conditions (getTodos_conditions d userId input) t} \<and>
   ((case q_search input of None \<Rightarrow> True | Some s \<Rightarrow> like_literal s) \<and>
    q_tagId input \<noteq> Some [] \<longrightarrow>
      and_conditions (getTodos_conditions d userId input) t
        = spec_getTodos_predicate d userId input t)"
proof -
  have search: "(case q_search input of None \<Rightarrow> True
           | Some s \<Rightarrow> s = [] \<or> like (Some (todos_title t)) (CHR ''%'' # s @ ''%'')
                     \<or> like (todos_description t) (CHR ''%'' # s @ ''%''))
        = (case q_search input of None \<Rightarrow> True
       | Some s \<Rightarrow>
           if like_literal s
           then sublist s (todos_title t) \<or>
                (case todos_description t of None \<Rightarrow> False | Some ds \<Rightarrow> sublist s ds)
           else like (Some (todos_title t)) (CHR ''%'' # s @ ''%'') \<or>
                like (todos_description t) (CHR ''%'' # s @ ''%''))"
    by (auto simp: like_contains dest: like_literal_nonempty split: option.splits)
  have code: "and_conditions (getTodos_conditions d userId input) t =
     (todos_userId t = userId \<and>
      (case q_completed input of None \<Rightarrow> True | Some c \<Rightarrow> todos_completed t = c) \<and>
      (case q_priority input of None \<Rightarrow> True | Some p \<Rightarrow> todos_priority t = p) \<and>
      (case q_search input of None \<Rightarrow> True
           | Some s \<Rightarrow> s = [] \<or> like (Some (todos_title t)) (CHR ''%'' # s @ ''%'')
                     \<or> like (todos_description t) (CHR ''%'' # s @ ''%'')) \<and>
      (case q_tagId input of None \<Rightarrow> True
       | Some tg \<Rightarrow> tg = [] \<or>
           todos_id t \<in> set (map todoTags_todoId
                                (filter (\<lambda>tt. todoTags_tagId tt = tg) (todoTags d)))))"
    by (auto simp: and_conditions_def getTodos_conditions_def tag_subquery_def
             split: option.splits)
  have rows: "set (map r_todo (getTodos d userId input))
           = {t \<in> set (todos d). and_conditions (getTodos_conditions d userId input) t}"
    by (simp only: set_map set_getTodos image_image r_todo_enrich image_ident)
  have spec: "(case q_search input of None \<Rightarrow> True | Some s \<Rightarrow> like_literal s) \<and>
    q_tagId input \<noteq> Some [] \<longrightarrow>
      and_conditions (getTodos_conditions d userId input) t
        = spec_getTodos_predicate d userId input t"
    unfolding code search
    by (auto simp: spec_getTodos_predicate_def split: option.splits)
  from code search rows spec show ?thesis by (simp only:) 
qed

text \<open>
  Alice asks for open, high-priority tasks tagged \<open>g1\<close> that contain \<open>milk\<close>, and
  gets \<open>t1\<close>. With the empty string as \<open>tagId\<close> she gets \<open>t1\<close> too, but not when
  she also asks for completed tasks; nor does the search \<open>B_y\<close> select \<open>t1\<close> when
  she asks for completed tasks.
\<close>

theorem getTodos_predicate_witness:
  "and_conditions (getTodos_conditions ex_db ''alice'' ex_filters) ex_t1 \<and>
   spec_getTodos_predicate ex_db ''alice'' ex_filters ex_t1 \<and>
   set (map r_todo (getTodos ex_db ''alice'' ex_filters))
     = {t \<in> set (todos ex_db). spec_getTodos_predicate ex_db ''alice'' ex_filters t} \<and>
   and_conditions (getTodos_conditions ex_db ''alice'' ex_emptyTag) ex_t1 \<and>
   \<not> and_conditions (getTodos_conditions ex_db ''alice'' ex_emptyTag_low) ex_t1 \<and>
   \<not> and_conditions (getTodos_conditions ex_db ''alice'' ex_wildcard_done) ex_t1"
proof -
  have a: "(case q_search ex_filters of None \<Rightarrow> True | Some s \<Rightarrow> like_literal s) \<and>
           q_tagId ex_filters \<noteq> Some []"
    by (simp add: ex_filters_def like_literal_def)
  have c: "spec_getTodos_predicate ex_db ''alice'' ex_filters ex_t1"
    by code_simp
  have all: "and_conditions (getTodos_conditions ex_db ''alice'' ex_filters) t
               = spec_getTodos_predicate ex_db ''alice'' ex_filters t" for t
    using getTodos_predicate [of ex_db "''alice''" ex_filters t] a by blast
  have rows: "set (map r_todo (getTodos ex_db ''alice'' ex_filters))
     = {t \<in> set (todos ex_db). spec_getTodos_predicate ex_db ''alice'' ex_filters t}"
    using getTodos_predicate [of ex_db "''alice''" ex_filters ex_t1] all by simp
  have e1: "and_conditions (getTodos_conditions ex_db ''alice'' ex_emptyTag) ex_t1"
    using getTodos_predicate [of ex_db "''alice''" ex_emptyTag ex_t1]
    by (simp add: ex_emptyTag_def ex_t1_def)
  have e2: "\<not> and_conditions (getTodos_conditions ex_db ''alice'' ex_emptyTag_low) ex_t1"
    using getTodos_predicate [of ex_db "''alice''" ex_emptyTag_low ex_t1]
    by (simp add: ex_emptyTag_low_def ex_t1_def)
  have e3: "\<not> and_conditions (getTodos_conditions ex_db ''alice'' ex_wildcard_done) ex_t1"
    using getTodos_predicate [of ex_db "''alice''" ex_wildcard_done ex_t1]
    by (simp add: ex_wildcard_done_def ex_t1_def)
  from all [of ex_t1] c rows e1 e2 e3 show ?thesis by simp
qed

text \<open>
  Claim C2 as stated fails in two places. The search \<open>B_y\<close> selects the title
  \<open>Buy milk\<close>, which does not contain it: \<open>_\<close> stands for any character. And
  with the empty string as \<open>tagId\<close> no condition is added, so \<open>t1\<close> is selected
  though no association carries that tag id.
\<close>

theorem getTodos_predicate_counterexample:
  "and_conditions (getTodos_conditions ex_db ''alice'' ex_wildcard) ex_t1 \<and>
   \<not> spec_getTodos_predicate ex_db ''alice'' ex_wildcard ex_t1 \<and>
   and_conditions (getTodos_conditions ex_db ''alice'' ex_emptyTag) ex_t1 \<and>
   \<not> spec_getTodos_predicate ex_db ''alice'' ex_emptyTag ex_t1"
  by code_simp

section \<open>The counts of getStats\<close>

text \<open>
  Claim C9. In the result of \<open>getStats\<close>, \<open>total = completed + pending\<close>, where
  \<open>total\<close> counts the owner's tasks and \<open>completed\<close> those of them that are
  completed; \<open>pending\<close> is never negative.
\<close>

theorem getStats_total_completed_pending:
  "st_total (getStats f d userId now) =
     st_completed (getStats f d userId now) + st_pending (getStats f d userId now) \<and>
   st_total (getStats f d userId now) =
     int (length (filter (\<lambda>t. todos_userId t = userId) (todos d))) \<and>
   st_completed (getStats f d userId now) =
     int (length (filter (\<lambda>t. todos_userId t = userId \<and> todos_completed t) (todos d))) \<and>
   0 \<le> st_pending (getStats f d userId now)"
proof -
  have "length (filter todos_completed (filter (\<lambda>t. todos_userId t = userId) (todos d)))
          \<le> length (filter (\<lambda>t. todos_userId t = userId) (todos d))"
    by (rule length_filter_le)
  moreover have "filter todos_completed (filter (\<lambda>t. todos_userId t = userId) (todos d))
      = filter (\<lambda>t. todos_userId t = userId \<and> todos_completed t) (todos d)"
    by (simp add: conj_commute)
  ultimately show ?thesis
    by (simp add: getStats_def Let_def count_def)
qed

section \<open>Rows of a query\<close>

lemma filter_ConsD: "filter p xs = y # ys \<Longrightarrow> y \<in> set xs \<and> p y"
proof -
  assume a: "filter p xs = y # ys"
  have "y \<in> set (filter p xs)" unfolding a by simp
  then show ?thesis by simp
qed

lemma first_row_SomeD: "first_row (filter p xs) = Some y \<Longrightarrow> y \<in> set xs \<and> p y"
  by (cases "filter p xs") (auto simp: first_row_def dest: filter_ConsD)

lemma first_row_filter_Some:
  "x \<in> set xs \<Longrightarrow> p x \<Longrightarrow> \<exists>y. first_row (filter p xs) = Some y"
proof -
  assume "x \<in> set xs" "p x"
  then have "x \<in> set (filter p xs)" by simp
  then show ?thesis by (cases "filter p xs") (auto simp: first_row_def)
qed

section \<open>deleteTodo\<close>

lemma delete_todos_none:
  "\<forall>t \<in> set (todos d). \<not> wh t \<Longrightarrow> delete_todos d wh = ([], d)"
  by (simp add: delete_todos_def Let_def)

lemma delete_todos_rows:
  "fst (delete_todos d wh) = filter wh (todos d)"
  "todos (snd (delete_todos d wh)) = filter (\<lambda>t. \<not> wh t) (todos d)"
  "tags (snd (delete_todos d wh)) = tags d"
  by (simp_all add: delete_todos_def Let_def)

text \<open>
  Claim C8. When no task has the given id under the caller's ownership (there is
  none, or it is another user's), \<open>deleteTodo\<close> fails with \<open>NOT_FOUND\<close> and the
  store afterwards is the store before: no task and no association has changed.
  Both routers do so.
\<close>

theorem deleteTodo_not_found:
  assumes "\<forall>t \<in> set (todos d). \<not> (todos_id t = tid \<and> todos_userId t = userId)"
  shows "deleteTodo d userId tid = (Inl NOT_FOUND, d) \<and>
         deleteTodo_routers d userId tid = (Inl NOT_FOUND, d)"
  using delete_todos_none [of d "\<lambda>t. todos_id t = tid \<and> todos_userId t = userId"] assms
  by (simp add: deleteTodo_def deleteTodo_routers_def first_row_def)

text \<open>Alice tries to delete Bob's \<open>t2\<close>: \<open>NOT_FOUND\<close>, and \<open>t2\<close> is still Bob's row.\<close>

theorem deleteTodo_not_found_witness:
  "deleteTodo ex_db ''alice'' ''t2'' = (Inl NOT_FOUND, ex_db) \<and>
   deleteTodo_routers ex_db ''alice'' ''t2'' = (Inl NOT_FOUND, ex_db) \<and>
   ex_t2 \<in> set (todos ex_db) \<and> todos_id ex_t2 = ''t2'' \<and> todos_userId ex_t2 = ''bob''"
proof -
  have "list_all (\<lambda>t. \<not> (todos_id t = ''t2'' \<and> todos_userId t = ''alice'')) (todos ex_db)"
    by (simp add: ex_db_def ex_t1_def ex_t2_def)
  then have "\<forall>t \<in> set (todos ex_db). \<not> (todos_id t = ''t2'' \<and> todos_userId t = ''alice'')"
    by (simp add: list_all_iff)
  from deleteTodo_not_found [OF this] show ?thesis
    by (simp add: ex_db_def ex_t2_def)
qed

text \<open>
  The router that has \<open>toggleTodo\<close> and \<open>getStats\<close> answers a successful delete
  with \<open>success\<close> and the id of the deleted task, which is the id asked for.
\<close>

lemma deleteTodo_success:
  assumes "fst (deleteTodo d userId tid) = Inr obj"
  shows "obj = [(''success'', JBool True), (''id'', JString tid)] \<and>
         (\<exists>t \<in> set (todos d). todos_id t = tid \<and> todos_userId t = userId)"
proof -
  let ?wh = "\<lambda>t. todos_id t = tid \<and> todos_userId t = userId"
  obtain rows d' where dt: "delete_todos d ?wh = (rows, d')"
    by (cases "delete_todos d ?wh")
  with assms obtain r rs where rows: "rows = r # rs"
    by (cases rows) (auto simp: deleteTodo_def first_row_def)
  from dt have "rows = filter ?wh (todos d)"
    using delete_todos_rows(1) [of d ?wh] by simp
  with rows have "r \<in> set (filter ?wh (todos d))" by simp
  then have r: "r \<in> set (todos d)" "todos_id r = tid" "todos_userId r = userId" by auto
  from assms dt rows have "obj = [(''success'', JBool True), (''id'', JString (todos_id r))]"
    by (simp add: deleteTodo_def first_row_def)
  with r show ?thesis by auto
qed

text \<open>
  Claim C7. A successful \<open>deleteTodo\<close> returns exactly \<open>{success: true, id}\<close>.
  The router of \<open>packages/api/src/routers/todos.ts\<close> deletes Alice's \<open>t1\<close> and
  returns \<open>{success: true}\<close>, with no \<open>id\<close>; the other router returns both keys.
\<close>

theorem deleteTodo_routers_no_id:
  "fst (deleteTodo_routers ex_db ''alice'' ''t1'') = Inr [(''success'', JBool True)] \<and>
   fst (deleteTodo ex_db ''alice'' ''t1'') = Inr [(''success'', JBool True), (''id'', JString ''t1'')]"
  by code_simp

section \<open>updateTodo\<close>

lemma updateTodo_tags_frame:
  "updateTodo_tags d tid tagIds now = Inr d2 \<Longrightarrow> todos d2 = todos d \<and> tags d2 = tags d"
  by (auto simp: updateTodo_tags_def delete_todoTags_def insert_todoTags_def Let_def
           split: option.splits if_splits)

lemma updateTodo_tags_replace:
  "updateTodo_tags d tid (Some ids) now = Inr d2 \<Longrightarrow>
     map todoTags_tagId (filter (\<lambda>tt. todoTags_todoId tt = tid) (todoTags d2)) = ids"
  by (auto simp: updateTodo_tags_def delete_todoTags_def insert_todoTags_def Let_def
                 filter_map comp_def
           split: if_splits)

lemma updateTodo_tags_ok:
  "tid \<in> todos_id ` set (todos d) \<Longrightarrow> set ids \<subseteq> tags_id ` set (tags d) \<Longrightarrow>
     \<exists>d2. updateTodo_tags d tid (Some ids) now = Inr d2"
  by (auto simp: updateTodo_tags_def delete_todoTags_def insert_todoTags_def Let_def
                 list_all_iff)

lemma todos_update_todos:
  "todos (update_todos d wh st) = map (\<lambda>t. if wh t then st t else t) (todos d)"
  "tags (update_todos d wh st) = tags d"
  "todoTags (update_todos d wh st) = todoTags d"
  by (simp_all add: update_todos_def)

text \<open>
  Claim C10. \<open>updateTodo\<close> with \<open>tagIds\<close> and no other field writes no row of
  \<open>todos\<close>: the table is the same afterwards, so \<open>updatedAt\<close> is not refreshed.
  When the call succeeds, the row it returns is a row of the table before, and
  the task's associations are the supplied ids.
\<close>

theorem updateTodo_tags_only:
  assumes "u_title input = None" "u_description input = None" "u_completed input = None"
    "u_priority input = None" "u_dueDate input = None" "u_tagIds input = Some ids"
  shows "todos (snd (updateTodo d userId input now)) = todos d \<and>
         (\<forall>r. fst (updateTodo d userId input now) = Inr r \<longrightarrow>
            r_todo r \<in> set (todos d) \<and>
            map todoTags_tagId (filter (\<lambda>tt. todoTags_todoId tt = u_id input)
               (todoTags (snd (updateTodo d userId input now)))) = ids)"
proof -
  have nd: "\<not> has_updateData input"
    using assms by (simp add: has_updateData_def)
  show ?thesis
  proof (cases "first_row (filter (\<lambda>t. todos_id t = u_id input \<and> todos_userId t = userId) (todos d))")
    case None
    then show ?thesis by (simp add: updateTodo_def updateTodo_fields_def)
  next
    case (Some existing)
    show ?thesis
    proof (cases "updateTodo_tags d (u_id input) (Some ids) now")
      case (Inl e)
      with Some nd assms(6) show ?thesis by (simp add: updateTodo_def updateTodo_fields_def)
    next
      case (Inr d2)
      note fr = updateTodo_tags_frame [OF Inr] and rp = updateTodo_tags_replace [OF Inr]
      show ?thesis
      proof (cases "first_row (findMany d2 (\<lambda>t. todos_id t = u_id input))")
        case None
        with Some nd assms(6) Inr show ?thesis by (simp add: updateTodo_def updateTodo_fields_def)
      next
        case (Some u)
        then have "u \<in> set (todos d)"
          using fr by (auto simp: findMany_def dest: first_row_SomeD)
        with Some \<open>first_row _ = Some existing\<close> nd assms(6) Inr fr rp show ?thesis
          by (simp add: updateTodo_def updateTodo_fields_def enrich_def)
      qed
    qed
  qed
qed

text \<open>At time 99 Alice retags \<open>t1\<close>: its \<open>updatedAt\<close> is still 10, its tags are \<open>g2\<close>.\<close>

theorem updateTodo_tags_only_witness:
  "todos (snd (updateTodo ex_db ''alice'' ex_retag 99)) = todos ex_db \<and>
   map (todos_updatedAt \<circ> r_todo) (case fst (updateTodo ex_db ''alice'' ex_retag 99) of Inl e \<Rightarrow> [] | Inr r \<Rightarrow> [r]) = [10] \<and>
   map todoTags_tagId (filter (\<lambda>tt. todoTags_todoId tt = ''t1'')
               (todoTags (snd (updateTodo ex_db ''alice'' ex_retag 99)))) = [''g2'']"
proof -
  have r: "map (todos_updatedAt \<circ> r_todo) (case fst (updateTodo ex_db ''alice'' ex_retag 99) of Inl e \<Rightarrow> [] | Inr r \<Rightarrow> [r]) = [10]"
    by code_simp
  then obtain r where "fst (updateTodo ex_db ''alice'' ex_retag 99) = Inr r"
    by (cases "fst (updateTodo ex_db ''alice'' ex_retag 99)") auto
  with r updateTodo_tags_only [of ex_retag "[''g2'']" ex_db "''alice''" 99]
  show ?thesis by (simp add: ex_retag_def)
qed

section \<open>updateTodo and the tags of a task\<close>

lemma updateTodo_tags_fail:
  "\<not> set ids \<subseteq> tags_id ` set (tags d) \<Longrightarrow>
     updateTodo_tags d tid (Some ids) now = Inl FOREIGN_KEY_VIOLATION"
  by (auto simp: updateTodo_tags_def delete_todoTags_def insert_todoTags_def Let_def
                 list_all_iff)

lemma r_tags_enrich:
  "r_tags (enrich d t) =
     map (\<lambda>tg. find (\<lambda>g. tags_id g = tg) (tags d))
       (map todoTags_tagId (filter (\<lambda>tt. todoTags_todoId tt = todos_id t) (todoTags d)))"
  by (simp add: enrich_def with_todoTags_def comp_def)

lemma updateTodo_fields_frame:
  "map todos_id (todos (updateTodo_fields d input now)) = map todos_id (todos d)"
  "map todos_userId (todos (updateTodo_fields d input now)) = map todos_userId (todos d)"
  "tags (updateTodo_fields d input now) = tags d"
  "todoTags (updateTodo_fields d input now) = todoTags d"
  by (simp_all add: updateTodo_fields_def update_todos_def set_updateData_def comp_def)

lemma updateTodo_fields_owned:
  assumes "t \<in> set (todos d)"
  shows "\<exists>t' \<in> set (todos (updateTodo_fields d input now)). todos_id t' = todos_id t \<and> todos_userId t' = todos_userId t"
proof (cases "has_updateData input \<and> todos_id t = u_id input")
  case True
  then have "set_updateData input now t \<in> set (todos (updateTodo_fields d input now))"
    using assms by (force simp: updateTodo_fields_def update_todos_def)
  then show ?thesis by (rule bexI [rotated]) (simp add: set_updateData_def)
next
  case False
  then have "t \<in> set (todos (updateTodo_fields d input now))"
    using assms by (force simp: updateTodo_fields_def update_todos_def)
  then show ?thesis by (rule bexI [rotated]) simp
qed

lemma updateTodo_unfold:
  "first_row (filter (\<lambda>t. todos_id t = u_id input \<and> todos_userId t = userId) (todos d)) = Some e \<Longrightarrow>
   updateTodo d userId input now =
     (case updateTodo_tags (updateTodo_fields d input now) (u_id input) (u_tagIds input) now of
        Inl e \<Rightarrow> (Inl e, d)
      | Inr d2 \<Rightarrow>
          (case first_row (findMany d2 (\<lambda>t. todos_id t = u_id input)) of
             None \<Rightarrow> (Inl INTERNAL_SERVER_ERROR, d)
           | Some updatedTodo \<Rightarrow> (Inr (enrich d2 updatedTodo), d2)))"
  by (simp add: updateTodo_def)

text \<open>
  Claim C6, as the code has it. For a task owned by the caller and \<open>tagIds\<close>
  supplied: when every supplied id is the id of an existing tag (of any owner),
  \<open>updateTodo\<close> succeeds, the task's associations are then exactly the supplied
  ids, and both its result and a following \<open>getTodo\<close> show the tags of these ids;
  with \<open>tagIds = []\<close> that is the empty sequence. When a supplied id is no tag's
  id, the store rejects the insert and the transaction leaves the store as it was.
\<close>

theorem updateTodo_replaces_tags:
  assumes "t \<in> set (todos d)" "todos_id t = u_id input" "todos_userId t = userId"
    and "u_tagIds input = Some ids"
  shows "(set ids \<subseteq> tags_id ` set (tags d) \<longrightarrow>
           (\<exists>r d'. updateTodo d userId input now = (Inr r, d') \<and>
              map todoTags_tagId
                (filter (\<lambda>tt. todoTags_todoId tt = u_id input) (todoTags d')) = ids \<and>
              r_tags r = map (\<lambda>tg. find (\<lambda>g. tags_id g = tg) (tags d)) ids \<and>
              (\<exists>r'. getTodo d' userId (u_id input) = Inr r' \<and> r_tags r' = r_tags r))) \<and>
         (\<not> set ids \<subseteq> tags_id ` set (tags d) \<longrightarrow>
            updateTodo d userId input now = (Inl FOREIGN_KEY_VIOLATION, d))"
proof -
  let ?d1 = "updateTodo_fields d input now"
  obtain e where e: "first_row (filter (\<lambda>t. todos_id t = u_id input \<and> todos_userId t = userId) (todos d)) = Some e"
    using first_row_filter_Some [of t "todos d" "\<lambda>t. todos_id t = u_id input \<and> todos_userId t = userId"] assms(1-3)
    by auto
  note unf = updateTodo_unfold [OF e, of now]
  have bad: "updateTodo d userId input now = (Inl FOREIGN_KEY_VIOLATION, d)"
    if "\<not> set ids \<subseteq> tags_id ` set (tags d)"
    using updateTodo_tags_fail [of ids ?d1 "u_id input" now] that assms(4) unf
    by (simp add: updateTodo_fields_frame)
  have good: "\<exists>r d'. updateTodo d userId input now = (Inr r, d') \<and>
              map todoTags_tagId
                (filter (\<lambda>tt. todoTags_todoId tt = u_id input) (todoTags d')) = ids \<and>
              r_tags r = map (\<lambda>tg. find (\<lambda>g. tags_id g = tg) (tags d)) ids \<and>
              (\<exists>r'. getTodo d' userId (u_id input) = Inr r' \<and> r_tags r' = r_tags r)"
    if sub: "set ids \<subseteq> tags_id ` set (tags d)"
  proof -
    obtain t1 where t1: "t1 \<in> set (todos ?d1)" "todos_id t1 = u_id input" "todos_userId t1 = userId"
      using updateTodo_fields_owned [OF assms(1), of input now] assms(2,3) by auto
    then have "u_id input \<in> todos_id ` set (todos ?d1)" by force
    then obtain d2 where d2: "updateTodo_tags ?d1 (u_id input) (Some ids) now = Inr d2"
      using updateTodo_tags_ok [of "u_id input" ?d1 ids now] sub by (auto simp: updateTodo_fields_frame)
    note fr = updateTodo_tags_frame [OF d2] and rp = updateTodo_tags_replace [OF d2]
    from t1 fr have t1': "t1 \<in> set (todos d2)" by simp
    obtain u where u: "first_row (findMany d2 (\<lambda>t. todos_id t = u_id input)) = Some u"
      using first_row_filter_Some [OF t1', of "\<lambda>t. todos_id t = u_id input"] t1(2)
      by (auto simp: findMany_def)
    then have uid: "todos_id u = u_id input"
      by (auto simp: findMany_def dest: first_row_SomeD)
    obtain v where v: "first_row (findMany d2 (\<lambda>t. todos_id t = u_id input \<and> todos_userId t = userId)) = Some v"
      using first_row_filter_Some [OF t1', of "\<lambda>t. todos_id t = u_id input \<and> todos_userId t = userId"] t1(2,3)
      by (auto simp: findMany_def)
    then have vid: "todos_id v = u_id input"
      by (auto simp: findMany_def dest: first_row_SomeD)
    have upd: "updateTodo d userId input now = (Inr (enrich d2 u), d2)"
      using unf d2 u assms(4) by simp
    have tags_u: "r_tags (enrich d2 u) = map (\<lambda>tg. find (\<lambda>g. tags_id g = tg) (tags d)) ids"
      using rp fr uid by (simp add: r_tags_enrich updateTodo_fields_frame)
    have tags_v: "r_tags (enrich d2 v) = map (\<lambda>tg. find (\<lambda>g. tags_id g = tg) (tags d)) ids"
      using rp fr vid by (simp add: r_tags_enrich updateTodo_fields_frame)
    have "getTodo d2 userId (u_id input) = Inr (enrich d2 v)"
      using v by (simp add: getTodo_def)
    with upd rp tags_u tags_v show ?thesis by simp
  qed
  from good bad show ?thesis by blast
qed

text \<open>Alice clears the tags of \<open>t1\<close>; attaching the missing tag \<open>ghost\<close> fails.\<close>

theorem updateTodo_replaces_tags_witness:
  "(\<exists>r d'. updateTodo ex_db ''alice'' ex_clear 99 = (Inr r, d') \<and>
      map todoTags_tagId (filter (\<lambda>tt. todoTags_todoId tt = ''t1'') (todoTags d')) = [] \<and>
      r_tags r = [] \<and>
      (\<exists>r'. getTodo d' ''alice'' ''t1'' = Inr r' \<and> r_tags r' = r_tags r)) \<and>
   updateTodo ex_db ''alice'' ex_ghost 99 = (Inl FOREIGN_KEY_VIOLATION, ex_db)"
proof -
  have own: "ex_t1 \<in> set (todos ex_db)" "todos_userId ex_t1 = ''alice''"
    by (simp_all add: ex_db_def ex_t1_def)
  have "todos_id ex_t1 = u_id ex_clear" "u_tagIds ex_clear = Some []"
    by (simp_all add: ex_t1_def ex_clear_def)
  note clear = updateTodo_replaces_tags [OF own(1) this(1) own(2) this(2), of 99]
  have "todos_id ex_t1 = u_id ex_ghost" "u_tagIds ex_ghost = Some [''ghost'']"
    by (simp_all add: ex_t1_def ex_ghost_def)
  note ghost = updateTodo_replaces_tags [OF own(1) this(1) own(2) this(2), of 99]
  have "\<not> set [''ghost''] \<subseteq> tags_id ` set (tags ex_db)"
    by (simp add: ex_db_def ex_g1_def ex_g2_def)
  with clear ghost show ?thesis
    by (simp add: ex_clear_def)
qed

text \<open>
  Claim C6 as stated fails when a supplied id is not a tag: the associations of
  \<open>t1\<close> are not replaced by \<open>ghost\<close>, they stay \<open>g1\<close> and \<open>g2\<close>.
\<close>

theorem updateTodo_ghost_tag:
  "updateTodo ex_db ''alice'' ex_ghost 99 = (Inl FOREIGN_KEY_VIOLATION, ex_db) \<and>
   map todoTags_tagId (filter (\<lambda>tt. todoTags_todoId tt = ''t1'')
     (todoTags (snd (updateTodo ex_db ''alice'' ex_ghost 99)))) = [''g1'', ''g2'']"
  by code_simp

section \<open>toggleTodo\<close>

lemma filter_key_distinct:
  "distinct (map f xs) \<Longrightarrow> x \<in> set xs \<Longrightarrow> filter (\<lambda>y. f y = f x) xs = [x]"
proof (induction xs)
  case Nil
  then show ?case by simp
next
  case (Cons a xs)
  show ?case
  proof (cases "a = x")
    case True
    with Cons.prems have "\<forall>y \<in> set xs. f y \<noteq> f x" by (metis distinct.simps(2) image_eqI list.simps(9) list.set_map)
    then have "filter (\<lambda>y. f y = f x) xs = []" by (simp add: filter_empty_conv)
    with True show ?thesis by simp
  next
    case False
    with Cons.prems have "x \<in> set xs" "f a \<noteq> f x" by auto
    with Cons show ?thesis by simp
  qed
qed

lemma filter_owned_row:
  assumes "distinct (map todos_id (todos d))" "t \<in> set (todos d)" "todos_userId t = userId"
  shows "filter (\<lambda>x. todos_id x = todos_id t \<and> todos_userId x = userId) (todos d) = [t]"
proof -
  have "filter (\<lambda>x. todos_id x = todos_id t \<and> todos_userId x = userId) (todos d)
        = filter (\<lambda>x. todos_userId x = userId) (filter (\<lambda>x. todos_id x = todos_id t) (todos d))"
    by (simp add: conj_commute)
  also have "\<dots> = [t]"
    using filter_key_distinct [OF assms(1,2)] assms(3) by simp
  finally show ?thesis .
qed

lemma toggleTodo_update_rows:
  assumes "distinct (map todos_id (todos d))" "t \<in> set (todos d)"
  shows "toggleTodo_update d (todos_id t) c now =
           ([t\<lparr> todos_completed := c, todos_updatedAt := now \<rparr>],
            update_todos d (\<lambda>x. todos_id x = todos_id t)
              (\<lambda>x. x\<lparr> todos_completed := c, todos_updatedAt := now \<rparr>))"
proof -
  let ?g = "\<lambda>x. if todos_id x = todos_id t then x\<lparr> todos_completed := c, todos_updatedAt := now \<rparr> else x"
  have "filter (\<lambda>x. todos_id x = todos_id t) (map ?g (todos d))
        = map ?g (filter (\<lambda>x. todos_id x = todos_id t) (todos d))"
    by (induction "todos d") (simp_all add: filter_map comp_def)
  also have "\<dots> = [t\<lparr> todos_completed := c, todos_updatedAt := now \<rparr>]"
    using filter_key_distinct [OF assms] by simp
  finally show ?thesis
    by (simp add: toggleTodo_update_def update_todos_def)
qed

lemma toggleTodo_owned:
  assumes "distinct (map todos_id (todos d))" "t \<in> set (todos d)" "todos_userId t = userId"
  shows "toggleTodo d userId (todos_id t) now =
           (Inr (Some (t\<lparr> todos_completed := \<not> todos_completed t, todos_updatedAt := now \<rparr>)),
            update_todos d (\<lambda>x. todos_id x = todos_id t)
              (\<lambda>x. x\<lparr> todos_completed := \<not> todos_completed t, todos_updatedAt := now \<rparr>))"
  using filter_owned_row [OF assms] toggleTodo_update_rows [OF assms(1,2)]
  by (simp add: toggleTodo_def toggleTodo_select_def first_row_def)

text \<open>
  Claim C5. In a store where \<open>id\<close> is a key of \<open>todos\<close>, for a task owned by the
  caller, \<open>toggleTodo\<close> returns the task with \<open>completed\<close> negated, and a second
  \<open>toggleTodo\<close> right after it returns the task with the \<open>completed\<close> it had at
  first: the store is then the first store but for \<open>updatedAt\<close> of that task.
\<close>

theorem toggleTodo_twice:
  assumes "distinct (map todos_id (todos d))" "t \<in> set (todos d)" "todos_userId t = userId"
  shows "fst (toggleTodo d userId (todos_id t) now1) =
           Inr (Some (t\<lparr> todos_completed := \<not> todos_completed t, todos_updatedAt := now1 \<rparr>)) \<and>
         toggleTodo (snd (toggleTodo d userId (todos_id t) now1)) userId (todos_id t) now2 =
           (Inr (Some (t\<lparr> todos_updatedAt := now2 \<rparr>)),
            update_todos d (\<lambda>x. todos_id x = todos_id t) (\<lambda>x. x\<lparr> todos_updatedAt := now2 \<rparr>))"
proof -
  let ?t1 = "t\<lparr> todos_completed := \<not> todos_completed t, todos_updatedAt := now1 \<rparr>"
  let ?d1 = "update_todos d (\<lambda>x. todos_id x = todos_id t)
               (\<lambda>x. x\<lparr> todos_completed := \<not> todos_completed t, todos_updatedAt := now1 \<rparr>)"
  have first: "toggleTodo d userId (todos_id t) now1 = (Inr (Some ?t1), ?d1)"
    by (rule toggleTodo_owned [OF assms])
  have ids: "map todos_id (todos ?d1) = map todos_id (todos d)"
    by (simp add: update_todos_def comp_def)
  have d1: "distinct (map todos_id (todos ?d1))"
    using assms(1) ids by simp
  have t1: "?t1 \<in> set (todos ?d1)"
    using assms(2) by (force simp: update_todos_def)
  have "toggleTodo ?d1 userId (todos_id ?t1) now2 =
          (Inr (Some (?t1\<lparr> todos_completed := \<not> todos_completed ?t1, todos_updatedAt := now2 \<rparr>)),
           update_todos ?d1 (\<lambda>x. todos_id x = todos_id ?t1)
             (\<lambda>x. x\<lparr> todos_completed := \<not> todos_completed ?t1, todos_updatedAt := now2 \<rparr>))"
    by (rule toggleTodo_owned [OF d1 t1]) (simp add: assms(3))
  moreover have "update_todos ?d1 (\<lambda>x. todos_id x = todos_id ?t1)
             (\<lambda>x. x\<lparr> todos_completed := \<not> todos_completed ?t1, todos_updatedAt := now2 \<rparr>)
        = update_todos d (\<lambda>x. todos_id x = todos_id t) (\<lambda>x. x\<lparr> todos_updatedAt := now2 \<rparr>)"
  proof -
    have same: "x = t" if "x \<in> set (todos d)" "todos_id x = todos_id t" for x
      using assms(1,2) that by (auto simp: distinct_map dest: inj_onD)
    have "map (\<lambda>x. if todos_id x = todos_id t
                    then x\<lparr> todos_completed := todos_completed t, todos_updatedAt := now2 \<rparr>
                    else x) (todos d)
          = map (\<lambda>x. if todos_id x = todos_id t then x\<lparr> todos_updatedAt := now2 \<rparr> else x) (todos d)"
      by (rule map_cong) (auto dest: same)
    then show ?thesis
      by (simp add: update_todos_def comp_def if_distrib [of todos_id] cong: if_cong)
  qed
  ultimately show ?thesis using first by simp
qed

text \<open>Alice toggles her open task \<open>t1\<close> at time 30 and again at time 40.\<close>

theorem toggleTodo_twice_witness:
  "fst (toggleTodo ex_db ''alice'' ''t1'' 30) =
     Inr (Some (ex_t1\<lparr> todos_completed := True, todos_updatedAt := 30 \<rparr>)) \<and>
   toggleTodo (snd (toggleTodo ex_db ''alice'' ''t1'' 30)) ''alice'' ''t1'' 40 =
     (Inr (Some (ex_t1\<lparr> todos_updatedAt := 40 \<rparr>)),
      update_todos ex_db (\<lambda>x. todos_id x = ''t1'') (\<lambda>x. x\<lparr> todos_updatedAt := 40 \<rparr>)) \<and>
   todos_completed ex_t1 = False"
proof -
  have "distinct (map todos_id (todos ex_db))" "ex_t1 \<in> set (todos ex_db)"
    "todos_userId ex_t1 = ''alice''"
    by (simp_all add: ex_db_def ex_t1_def ex_t2_def)
  from toggleTodo_twice [OF this, of 30 40] show ?thesis
    by (simp add: ex_t1_def)
qed

section \<open>The writes of toggleTodo and deleteTodo\<close>

lemma first_row_filter_find: "first_row (filter p xs) = find p xs"
  by (induction xs) (simp_all add: first_row_def)

text \<open>
  Claim C3, as the code has it. \<open>deleteTodo\<close> is one delete whose WHERE clause
  has the id and the caller: it removes exactly the caller's rows of that id, and
  every row of another owner stays. \<open>toggleTodo\<close> is two statements. Its select
  reads \<open>completed\<close> of the first row that has the id and is owned by the caller;
  when there is no such row the result is \<open>NOT_FOUND\<close> and nothing is written.
  Otherwise a separate update under the id alone writes the negation of the value
  read, and the time, into every row of that id in the store it finds, whoever
  owns it, touches no other table, and returns the first such row.
\<close>

theorem toggle_delete_writes:
  "todos (snd (deleteTodo d userId tid))
     = filter (\<lambda>t. \<not> (todos_id t = tid \<and> todos_userId t = userId)) (todos d) \<and>
   (\<forall>t \<in> set (todos d). todos_userId t \<noteq> userId \<longrightarrow> t \<in> set (todos (snd (deleteTodo d userId tid)))) \<and>
   toggleTodo d userId tid now = toggleTodo_interleaved d d userId tid now \<and>
   toggleTodo_select d0 userId tid
     = map_option todos_completed
         (find (\<lambda>t. todos_id t = tid \<and> todos_userId t = userId) (todos d0)) \<and>
   ((\<forall>t \<in> set (todos d0). \<not> (todos_id t = tid \<and> todos_userId t = userId)) \<longrightarrow>
      toggleTodo_interleaved d0 d userId tid now = (Inl NOT_FOUND, d)) \<and>
   (toggleTodo_select d0 userId tid = Some c \<longrightarrow>
      (\<exists>t \<in> set (todos d0). todos_id t = tid \<and> todos_userId t = userId \<and> todos_completed t = c) \<and>
      todos (snd (toggleTodo_interleaved d0 d userId tid now))
        = map (\<lambda>t. if todos_id t = tid
                    then t\<lparr> todos_completed := \<not> c, todos_updatedAt := now \<rparr> else t) (todos d) \<and>
      tags (snd (toggleTodo_interleaved d0 d userId tid now)) = tags d \<and>
      todoTags (snd (toggleTodo_interleaved d0 d userId tid now)) = todoTags d \<and>
      fst (toggleTodo_interleaved d0 d userId tid now)
        = Inr (find (\<lambda>t. todos_id t = tid)
                 (map (\<lambda>t. if todos_id t = tid
                    then t\<lparr> todos_completed := \<not> c, todos_updatedAt := now \<rparr> else t) (todos d))))"
proof -
  let ?own = "\<lambda>t. todos_id t = tid \<and> todos_userId t = userId"
  have del: "todos (snd (deleteTodo d userId tid)) = filter (\<lambda>t. \<not> ?own t) (todos d)"
    using delete_todos_rows(2) [of d ?own]
    by (simp add: deleteTodo_def split_beta split: option.splits)
  have same: "toggleTodo d userId tid now = toggleTodo_interleaved d d userId tid now"
    by (simp add: toggleTodo_def toggleTodo_interleaved_def)
  have sel: "toggleTodo_select d0 userId tid = map_option todos_completed (find ?own (todos d0))"
    by (simp add: toggleTodo_select_def first_row_filter_find)
  have none: "(\<forall>t \<in> set (todos d0). \<not> ?own t) \<longrightarrow>
      toggleTodo_interleaved d0 d userId tid now = (Inl NOT_FOUND, d)"
  proof
    assume "\<forall>t \<in> set (todos d0). \<not> ?own t"
    then have "find ?own (todos d0) = None" by (simp add: find_None_iff)
    then show "toggleTodo_interleaved d0 d userId tid now = (Inl NOT_FOUND, d)"
      by (simp add: toggleTodo_interleaved_def sel)
  qed
  have some: "toggleTodo_select d0 userId tid = Some c \<longrightarrow>
      (\<exists>t \<in> set (todos d0). ?own t \<and> todos_completed t = c) \<and>
      todos (snd (toggleTodo_interleaved d0 d userId tid now))
        = map (\<lambda>t. if todos_id t = tid
                    then t\<lparr> todos_completed := \<not> c, todos_updatedAt := now \<rparr> else t) (todos d) \<and>
      tags (snd (toggleTodo_interleaved d0 d userId tid now)) = tags d \<and>
      todoTags (snd (toggleTodo_interleaved d0 d userId tid now)) = todoTags d \<and>
      fst (toggleTodo_interleaved d0 d userId tid now)
        = Inr (find (\<lambda>t. todos_id t = tid)
                 (map (\<lambda>t. if todos_id t = tid
                    then t\<lparr> todos_completed := \<not> c, todos_updatedAt := now \<rparr> else t) (todos d)))"
  proof
    assume s: "toggleTodo_select d0 userId tid = Some c"
    then obtain t where "find ?own (todos d0) = Some t" "todos_completed t = c"
      by (auto simp: sel)
    then have "\<exists>t \<in> set (todos d0). ?own t \<and> todos_completed t = c"
      by (auto simp: find_Some_iff)
    with s show "(\<exists>t \<in> set (todos d0). ?own t \<and> todos_completed t = c) \<and>
      todos (snd (toggleTodo_interleaved d0 d userId tid now))
        = map (\<lambda>t. if todos_id t = tid
                    then t\<lparr> todos_completed := \<not> c, todos_updatedAt := now \<rparr> else t) (todos d) \<and>
      tags (snd (toggleTodo_interleaved d0 d userId tid now)) = tags d \<and>
      todoTags (snd (toggleTodo_interleaved d0 d userId tid now)) = todoTags d \<and>
      fst (toggleTodo_interleaved d0 d userId tid now)
        = Inr (find (\<lambda>t. todos_id t = tid)
                 (map (\<lambda>t. if todos_id t = tid
                    then t\<lparr> todos_completed := \<not> c, todos_updatedAt := now \<rparr> else t) (todos d)))"
      by (simp add: toggleTodo_interleaved_def toggleTodo_update_def update_todos_def
                    first_row_filter_find)
  qed
  from del same sel none some show ?thesis by simp
qed

text \<open>
  Alice deletes \<open>t1\<close>; Alice toggles \<open>t1\<close> with nothing in between; Alice's toggle
  of Bob's \<open>t2\<close> is \<open>NOT_FOUND\<close> and leaves the store as it was.
\<close>

theorem toggle_delete_writes_witness:
  "todos (snd (deleteTodo ex_db ''alice'' ''t1'')) = [ex_t2] \<and>
   ex_t2 \<in> set (todos (snd (deleteTodo ex_db ''alice'' ''t1''))) \<and>
   toggleTodo ex_db ''alice'' ''t1'' 30 = toggleTodo_interleaved ex_db ex_db ''alice'' ''t1'' 30 \<and>
   toggleTodo_select ex_db ''alice'' ''t1'' = Some False \<and>
   todos (snd (toggleTodo ex_db ''alice'' ''t1'' 30))
     = [ex_t1\<lparr> todos_completed := True, todos_updatedAt := 30 \<rparr>, ex_t2] \<and>
   fst (toggleTodo ex_db ''alice'' ''t1'' 30)
     = Inr (Some (ex_t1\<lparr> todos_completed := True, todos_updatedAt := 30 \<rparr>)) \<and>
   toggleTodo_select ex_db ''alice'' ''t2'' = None \<and>
   toggleTodo ex_db ''alice'' ''t2'' 30 = (Inl NOT_FOUND, ex_db)"
proof -
  note t1 = toggle_delete_writes [of ex_db "''alice''" "''t1''" 30 ex_db False]
  note t2 = toggle_delete_writes [of ex_db "''alice''" "''t2''" 30 ex_db False]
  have b: "ex_t2 \<in> set (todos ex_db)" "todos_userId ex_t2 \<noteq> ''alice''"
    by (simp_all add: ex_db_def ex_t2_def)
  have s1: "toggleTodo_select ex_db ''alice'' ''t1'' = Some False"
    using t1 by (simp add: ex_db_def ex_t1_def ex_t2_def)
  have s2: "toggleTodo_select ex_db ''alice'' ''t2'' = None"
    using t2 by (simp add: ex_db_def ex_t1_def ex_t2_def)
  have n2: "\<forall>t \<in> set (todos ex_db). \<not> (todos_id t = ''t2'' \<and> todos_userId t = ''alice'')"
    by (simp add: ex_db_def ex_t1_def ex_t2_def)
  have r2: "toggleTodo ex_db ''alice'' ''t2'' 30 = (Inl NOT_FOUND, ex_db)"
    using t2 n2 by simp
  have del: "todos (snd (deleteTodo ex_db ''alice'' ''t1'')) = [ex_t2]"
    using t1 by (simp add: ex_db_def ex_t1_def ex_t2_def)
  have r1: "todos (snd (toggleTodo ex_db ''alice'' ''t1'' 30))
     = [ex_t1\<lparr> todos_completed := True, todos_updatedAt := 30 \<rparr>, ex_t2]"
    "fst (toggleTodo ex_db ''alice'' ''t1'' 30)
     = Inr (Some (ex_t1\<lparr> todos_completed := True, todos_updatedAt := 30 \<rparr>))"
    using t1 s1 by (simp_all add: ex_db_def ex_t1_def ex_t2_def)
  from t1 b del s1 s2 r1 r2 show ?thesis by simp
qed

text \<open>
  Claim C3 as stated fails for \<open>toggleTodo\<close>. Two toggles of Alice that both read
  before either writes leave \<open>t1\<close> completed, where two toggles in succession
  leave it open. A toggle that reads before, and writes after, a delete of the
  task returns no row instead of \<open>NOT_FOUND\<close>. And the update statement alone,
  given the id of Bob's \<open>t2\<close>, writes Bob's row: its WHERE clause has no owner.
\<close>

theorem toggleTodo_check_then_act:
  "toggleTodo_select ex_db ''alice'' ''t1'' = Some False \<and>
   map todos_completed
     (todos (snd (toggleTodo_interleaved ex_db (snd (toggleTodo ex_db ''alice'' ''t1'' 30)) ''alice'' ''t1'' 40)))
     = [True, True] \<and>
   map todos_completed
     (todos (snd (toggleTodo (snd (toggleTodo ex_db ''alice'' ''t1'' 30)) ''alice'' ''t1'' 40)))
     = [False, True] \<and>
   fst (toggleTodo_interleaved ex_db (snd (deleteTodo ex_db ''alice'' ''t1'')) ''alice'' ''t1'' 40)
     = Inr None \<and>
   fst (toggleTodo (snd (deleteTodo ex_db ''alice'' ''t1'')) ''alice'' ''t1'' 40) = Inl NOT_FOUND \<and>
   todos (snd (toggleTodo_update ex_db ''t2'' False 40))
     = [ex_t1, ex_t2\<lparr> todos_completed := False, todos_updatedAt := 40 \<rparr>] \<and>
   todos_userId ex_t2 = ''bob''"
  by code_simp

section \<open>The completion rate\<close>

text \<open>
  Rounding to a double moves a positive number by at most the fraction \<open>2\<^sup>-\<^sup>5\<^sup>3\<close> of
  it; the product \<open>(completed / total) * 100\<close> is therefore within \<open>2\<^sup>-\<^sup>4\<^sup>5\<close> of the
  exact percentage, which is less than the distance \<open>1 / (2 * total)\<close> between
  that percentage and the nearest half-integer it is not equal to.
\<close>

lemma pow2_powi: "pow2 e = 2 powi e"
proof (cases "0 \<le> e")
  case True
  then show ?thesis by (simp add: pow2_def power_int_def)
next
  case False
  then show ?thesis by (simp add: pow2_def power_int_def power_one_over inverse_eq_divide)
qed




lemma pow2_mono: "a \<le> b \<Longrightarrow> pow2 a \<le> pow2 b"
  by (simp add: pow2_powi power_int_increasing)















end
